theory Spec2Isabelle
  imports
    Complex_Main
    "HOL-Library.Char_ord"
    "HOL-Library.List_Lexorder"
    "HOL-Library.Product_Lexorder"
    "HOL-Library.Sublist"
begin

section \<open>Telecom billing reconciliation dashboard (streamlit\_app.py)\<close>

text \<open>
  The program is one script: \<^verbatim>\<open>generate_sample_data\<close> builds a table of billing
  rows from a seeded random stream, two selectors filter it, and a fixed set of grouped
  tables feeds the charts.

  Modelling decisions.
  \<^item> A data frame is the list of its rows, in row order; a row is a record with one
    field per column, named after the column (\<^verbatim>\<open>'Carrier Name'\<close> is
    \<open>Carrier_Name\<close>, the two amounts drop the unit).
  \<^item> Python floats are modelled as \<^typ>\<open>real\<close>: sums and products are exact. The
    decimal literals \<^verbatim>\<open>0.2\<close> and \<^verbatim>\<open>0.3\<close> are the rationals 2/10 and 3/10.
    Rounding is not modelled, so no property below compares two sums of the same numbers
    taken in different orders.
  \<^item> The random generator of the numeric library is not part of the program. It is a
    parameter: a state type with a seeding function, a draw of a double in the unit
    interval and a draw of an index below a bound. \<^verbatim>\<open>uniform\<close>, \<^verbatim>\<open>rand\<close> and
    \<^verbatim>\<open>choice\<close> are written on top of these two draws the way the library derives them.
  \<^item> A null cell (\<^verbatim>\<open>None\<close>) is \<^term>\<open>None\<close>; only the dispute type column can
    hold one.
\<close>

subsection \<open>Rows\<close>

record row =
  Carrier_Name :: string
  Invoice_Amount :: real
  Disputed_Amount :: real
  Reconciliation_Status :: string
  Dispute_Type :: "string option"
  Settlement_Status :: string
  Invoice_Month :: string

type_synonym dataframe = "row list"

subsection \<open>The random stream\<close>

record 's rng =
  rng_seed :: "nat \<Rightarrow> 's"
  rng_double :: "'s \<Rightarrow> real \<times> 's"
  rng_below :: "nat \<Rightarrow> 's \<Rightarrow> nat \<times> 's"

text \<open>\<^verbatim>\<open>np.random.rand()\<close>: the next double of the stream.\<close>

definition rand :: "'s rng \<Rightarrow> 's \<Rightarrow> real \<times> 's" where
  "rand g s = rng_double g s"

text \<open>\<^verbatim>\<open>np.random.uniform(low, high)\<close> is \<^verbatim>\<open>low + (high - low) * u\<close> for the next
  double \<^verbatim>\<open>u\<close> of the stream.\<close>

definition uniform :: "'s rng \<Rightarrow> real \<Rightarrow> real \<Rightarrow> 's \<Rightarrow> real \<times> 's" where
  "uniform g low high s = (case rng_double g s of (u, s') \<Rightarrow> (low + (high - low) * u, s'))"

text \<open>\<^verbatim>\<open>np.random.choice(a)\<close> draws an index below \<^verbatim>\<open>len(a)\<close> and returns that
  element.\<close>

definition choice :: "'s rng \<Rightarrow> 'a list \<Rightarrow> 's \<Rightarrow> 'a \<times> 's" where
  "choice g a s = (case rng_below g (length a) s of (i, s') \<Rightarrow> (a ! i, s'))"

text \<open>The library's contract for the draw of a double: it lies in \<open>[0, 1)\<close>. No
  property below depends on which index \<^verbatim>\<open>choice\<close> draws.\<close>

definition unit_double :: "real \<Rightarrow> bool" where
  "unit_double u = (0 \<le> u \<and> u < 1)"

definition rng_ok :: "'s rng \<Rightarrow> bool" where
  "rng_ok g = (\<forall>s. unit_double (fst (rng_double g s)))"

subsection \<open>Months and carriers\<close>

text \<open>\<^verbatim>\<open>str(n)\<close> (the \<^verbatim>\<open>{i}\<close> of an f-string) for a natural number: its
  decimal digits.\<close>

fun str_nat :: "nat \<Rightarrow> string" where
  "str_nat n =
     (if n < 10 then [''0123456789'' ! n]
      else str_nat (n div 10) @ [''0123456789'' ! (n mod 10)])"

declare str_nat.simps [simp del]

text \<open>\<^verbatim>\<open>pd.date_range(start, periods, freq='M')\<close> from the first day of a month: the
  month ends of \<^verbatim>\<open>periods\<close> consecutive months, kept as (year, month) pairs;
  \<^verbatim>\<open>strftime('%Y-%m')\<close> prints the year and the month on two digits.\<close>

definition date_range_M :: "nat \<times> nat \<Rightarrow> nat \<Rightarrow> (nat \<times> nat) list" where
  "date_range_M start periods =
     map (\<lambda>i. (fst start + (snd start - 1 + i) div 12, (snd start - 1 + i) mod 12 + 1))
       [0..<periods]"

definition strftime_Ym :: "nat \<times> nat \<Rightarrow> string" where
  "strftime_Ym d =
     str_nat (fst d) @ ''-'' @ (if snd d < 10 then ''0'' @ str_nat (snd d) else str_nat (snd d))"

definition months :: "string list" where
  "months = map strftime_Ym (date_range_M (2024, 1) 12)"

definition carriers :: "string list" where
  "carriers = map (\<lambda>i. ''Carrier '' @ str_nat i) [1..<11]"

subsection \<open>generate\_sample\_data\<close>

text \<open>One pass of the loop body. The draws are made in the order of the source:
  invoice amount, dispute flag, disputed amount (only when disputed), reconciliation
  status, dispute type (only when disputed), settlement status (only when disputed).
  The flag \<^verbatim>\<open>is_disputed\<close> is a local variable of the source; the model returns it
  beside the row so that properties can refer to it.\<close>

definition gen_row :: "'s rng \<Rightarrow> string \<Rightarrow> string \<Rightarrow> 's \<Rightarrow> (bool \<times> row) \<times> 's" where
  "gen_row g month carrier s0 =
     (case uniform g 1000 5000 s0 of (invoice_amount, s1) \<Rightarrow>
      case rand g s1 of (u, s2) \<Rightarrow>
      let is_disputed = (u < 2 / 10) in
      case (if is_disputed then uniform g 0 (invoice_amount * (3 / 10)) s2 else (0, s2))
        of (disputed_amount, s3) \<Rightarrow>
      case choice g [''Pending'', ''Completed'', ''In Progress''] s3 of (recon, s4) \<Rightarrow>
      case (if is_disputed
            then (case choice g [''Rate Dispute'', ''Volume Dispute''] s4
                    of (t, s') \<Rightarrow> (Some t, s'))
            else (None, s4)) of (dtype, s5) \<Rightarrow>
      case (if is_disputed then choice g [''Settled'', ''Unsettled''] s5
            else (''Settled'', s5)) of (settle, s6) \<Rightarrow>
        ((is_disputed,
          \<lparr>Carrier_Name = carrier, Invoice_Amount = invoice_amount,
           Disputed_Amount = disputed_amount, Reconciliation_Status = recon,
           Dispute_Type = dtype, Settlement_Status = settle, Invoice_Month = month\<rparr>),
         s6))"

text \<open>The inner and the outer loop; \<open>data\<close> is the list the source appends to.\<close>

fun carrier_loop ::
  "'s rng \<Rightarrow> string \<Rightarrow> string list \<Rightarrow> (bool \<times> row) list \<Rightarrow> 's \<Rightarrow> (bool \<times> row) list \<times> 's"
where
  "carrier_loop g month [] data s = (data, s)"
| "carrier_loop g month (carrier # cs) data s =
     (case gen_row g month carrier s of (x, s') \<Rightarrow> carrier_loop g month cs (data @ [x]) s')"

fun month_loop ::
  "'s rng \<Rightarrow> string list \<Rightarrow> string list \<Rightarrow> (bool \<times> row) list \<Rightarrow> 's \<Rightarrow> (bool \<times> row) list \<times> 's"
where
  "month_loop g [] cs data s = (data, s)"
| "month_loop g (month # ms) cs data s =
     (case carrier_loop g month cs data s of (data', s') \<Rightarrow> month_loop g ms cs data' s')"

definition generate_trace :: "'s rng \<Rightarrow> 's \<Rightarrow> (bool \<times> row) list" where
  "generate_trace g s = fst (month_loop g months carriers [] s)"

definition generate_from :: "'s rng \<Rightarrow> 's \<Rightarrow> dataframe" where
  "generate_from g s = map snd (generate_trace g s)"

text \<open>The source seeds the stream with 42 before the loops.\<close>

definition generate_sample_data :: "'s rng \<Rightarrow> dataframe" where
  "generate_sample_data g = generate_from g (rng_seed g 42)"


text \<open>The (month, carrier) pair a row was generated for.\<close>

definition month_carrier :: "row \<Rightarrow> string \<times> string" where
  "month_carrier r = (Invoice_Month r, Carrier_Name r)"

subsection \<open>Selectors and filters\<close>

text \<open>\<^verbatim>\<open>Series.unique()\<close>: the distinct values in order of first appearance.\<close>

fun unique :: "'a list \<Rightarrow> 'a list" where
  "unique [] = []"
| "unique (x # xs) = x # unique (filter (\<lambda>y. y \<noteq> x) xs)"

text \<open>The option lists of the two select boxes.\<close>

definition carrier_options :: "dataframe \<Rightarrow> string list" where
  "carrier_options df = [''All''] @ unique (map Carrier_Name df)"

definition month_options :: "dataframe \<Rightarrow> string list" where
  "month_options df = [''All''] @ unique (map Invoice_Month df)"

text \<open>Lines 53 to 59: the copy of the frame, narrowed by each selector that is not
  \<^verbatim>\<open>"All"\<close>. The comparison is Python's \<^verbatim>\<open>==\<close> on strings.\<close>

definition apply_filters :: "dataframe \<Rightarrow> string \<Rightarrow> string \<Rightarrow> dataframe" where
  "apply_filters df carrier_filter month_filter =
     (let filtered_df = df;
          filtered_df = (if carrier_filter \<noteq> ''All''
                         then filter (\<lambda>r. Carrier_Name r = carrier_filter) filtered_df
                         else filtered_df);
          filtered_df = (if month_filter \<noteq> ''All''
                         then filter (\<lambda>r. Invoice_Month r = month_filter) filtered_df
                         else filtered_df)
      in filtered_df)"

subsection \<open>Grouping\<close>

text \<open>\<^verbatim>\<open>df.groupby(keys)\<close> with the library's defaults: rows whose key has a null
  component are dropped, the groups come in ascending key order (strings compare
  character by character, tuples lexicographically), and each group keeps its rows in
  frame order. The key function returns \<^term>\<open>None\<close> for a row that is dropped.\<close>

definition groupby :: "(row \<Rightarrow> 'k::linorder option) \<Rightarrow> dataframe \<Rightarrow> ('k \<times> dataframe) list" where
  "groupby key df =
     map (\<lambda>k. (k, filter (\<lambda>r. key r = Some k) df)) (sort (remdups (List.map_filter key df)))"

text \<open>\<^verbatim>\<open>.agg({'Invoice Amount (USD)': 'sum', 'Disputed Amount (USD)': 'sum'}).reset_index()\<close>,
  \<^verbatim>\<open>.agg({col: 'sum'}).reset_index()\<close> and \<^verbatim>\<open>.size().reset_index(name='Count')\<close>:
  one output row per group.\<close>

definition agg_sum_both :: "('k \<times> dataframe) list \<Rightarrow> ('k \<times> real \<times> real) list" where
  "agg_sum_both groups =
     map (\<lambda>(k, grp). (k, sum_list (map Invoice_Amount grp), sum_list (map Disputed_Amount grp)))
       groups"

definition agg_sum :: "(row \<Rightarrow> real) \<Rightarrow> ('k \<times> dataframe) list \<Rightarrow> ('k \<times> real) list" where
  "agg_sum col groups = map (\<lambda>(k, grp). (k, sum_list (map col grp))) groups"

definition agg_size :: "('k \<times> dataframe) list \<Rightarrow> ('k \<times> nat) list" where
  "agg_size groups = map (\<lambda>(k, grp). (k, length grp)) groups"

subsection \<open>The eight chart tables\<close>

text \<open>Lines 82 to 83: the bar chart is given the filtered frame itself; it reads the
  carrier and the two amount columns, one row per record.\<close>

definition processed_vs_disputed :: "dataframe \<Rightarrow> (string \<times> real \<times> real) list" where
  "processed_vs_disputed filtered_df =
     map (\<lambda>r. (Carrier_Name r, Invoice_Amount r, Disputed_Amount r)) filtered_df"

text \<open>Lines 91 to 94.\<close>

definition monthly_disputes :: "dataframe \<Rightarrow> (string \<times> real \<times> real) list" where
  "monthly_disputes filtered_df =
     agg_sum_both (groupby (\<lambda>r. Some (Invoice_Month r)) filtered_df)"

text \<open>Lines 110 to 113, as a function of the frame that is grouped: the per-carrier
  sums of both amounts.\<close>

definition groupby_carrier_sum :: "dataframe \<Rightarrow> (string \<times> real \<times> real) list" where
  "groupby_carrier_sum d = agg_sum_both (groupby (\<lambda>r. Some (Carrier_Name r)) d)"

text \<open>Lines 109 to 113.\<close>

definition pending_reconciliation_summary :: "dataframe \<Rightarrow> (string \<times> real \<times> real) list" where
  "pending_reconciliation_summary filtered_df =
     (let pending_reconciliation =
            filter (\<lambda>r. Reconciliation_Status r = ''Pending'') filtered_df
      in groupby_carrier_sum pending_reconciliation)"

text \<open>Line 125.\<close>

definition reconciliation_trend :: "dataframe \<Rightarrow> ((string \<times> string) \<times> nat) list" where
  "reconciliation_trend filtered_df =
     agg_size (groupby (\<lambda>r. Some (Invoice_Month r, Reconciliation_Status r)) filtered_df)"

text \<open>Lines 138 to 140. The dispute type is the one nullable key.\<close>

definition dispute_type :: "dataframe \<Rightarrow> ((string \<times> string) \<times> real) list" where
  "dispute_type filtered_df =
     agg_sum Disputed_Amount
       (groupby (\<lambda>r. map_option (Pair (Carrier_Name r)) (Dispute_Type r)) filtered_df)"

text \<open>Lines 151 to 153.\<close>

definition dispute_status :: "dataframe \<Rightarrow> ((string \<times> string) \<times> real) list" where
  "dispute_status filtered_df =
     agg_sum Disputed_Amount
       (groupby (\<lambda>r. Some (Carrier_Name r, Settlement_Status r)) filtered_df)"

text \<open>Line 168.\<close>

definition settlement_status :: "dataframe \<Rightarrow> ((string \<times> string) \<times> nat) list" where
  "settlement_status filtered_df =
     agg_size (groupby (\<lambda>r. Some (Carrier_Name r, Settlement_Status r)) filtered_df)"

text \<open>Lines 180 to 182.\<close>

definition settled_vs_outstanding :: "dataframe \<Rightarrow> ((string \<times> string) \<times> real) list" where
  "settled_vs_outstanding filtered_df =
     agg_sum Invoice_Amount
       (groupby (\<lambda>r. Some (Carrier_Name r, Settlement_Status r)) filtered_df)"

subsection \<open>The page\<close>

text \<open>A chart section either plots its table or writes a message
  (\<^verbatim>\<open>st.plotly_chart\<close> against \<^verbatim>\<open>st.write\<close>); every section of the source is
  guarded by \<^verbatim>\<open>if not filtered_df.empty\<close>.\<close>

datatype 'a display = Chart 'a | Write string

definition guarded :: "dataframe \<Rightarrow> 'a \<Rightarrow> 'a display" where
  "guarded filtered_df table =
     (if filtered_df \<noteq> [] then Chart table
      else Write ''No data to display for the selected filter.'')"

record tabs =
  shown_dataframe :: dataframe
  processed_vs_disputed_fig :: "(string \<times> real \<times> real) list display"
  monthly_disputes_fig :: "(string \<times> real \<times> real) list display"
  pending_reconciliation_fig :: "(string \<times> real \<times> real) list display"
  trend_fig :: "((string \<times> string) \<times> nat) list display"
  dispute_type_fig :: "((string \<times> string) \<times> real) list display"
  dispute_status_fig :: "((string \<times> string) \<times> real) list display"
  settlement_pie :: "((string \<times> string) \<times> nat) list display"
  outstanding_vs_settled_fig :: "((string \<times> string) \<times> real) list display"

definition render_tabs :: "dataframe \<Rightarrow> tabs" where
  "render_tabs filtered_df =
     \<lparr>shown_dataframe = filtered_df,
      processed_vs_disputed_fig = guarded filtered_df (processed_vs_disputed filtered_df),
      monthly_disputes_fig = guarded filtered_df (monthly_disputes filtered_df),
      pending_reconciliation_fig =
        guarded filtered_df (pending_reconciliation_summary filtered_df),
      trend_fig = guarded filtered_df (reconciliation_trend filtered_df),
      dispute_type_fig = guarded filtered_df (dispute_type filtered_df),
      dispute_status_fig = guarded filtered_df (dispute_status filtered_df),
      settlement_pie = guarded filtered_df (settlement_status filtered_df),
      outstanding_vs_settled_fig = guarded filtered_df (settled_vs_outstanding filtered_df)\<rparr>"

text \<open>Lines 62 to 69: an empty filtered frame ends the page with one warning; otherwise
  the carrier warning is shown when a month is selected and fewer than three carriers
  remain, and the tabs follow in either case.\<close>

datatype page = No_Data string | Tabs "string option" tabs

definition carrier_warning :: "dataframe \<Rightarrow> string" where
  "carrier_warning filtered_df =
     ''Only '' @ str_nat (length (unique (map Carrier_Name filtered_df)))
       @ '' carrier(s) available for the selected month. Please adjust the filters for a better view.''"

definition dashboard :: "dataframe \<Rightarrow> string \<Rightarrow> string \<Rightarrow> page" where
  "dashboard df carrier_filter month_filter =
     (let filtered_df = apply_filters df carrier_filter month_filter in
      if filtered_df = []
      then No_Data ''No data available for the selected filters. Please adjust your filters and try again.''
      else Tabs
             (if month_filter \<noteq> ''All'' \<and> length (unique (map Carrier_Name filtered_df)) < 3
              then Some (carrier_warning filtered_df) else None)
             (render_tabs filtered_df))"

subsection \<open>Sample inputs\<close>

text \<open>A small deterministic stream for running the generator: the state is a counter,
  a double is its last decimal digit over ten, an index is the counter modulo the
  bound.\<close>

definition demo_rng :: "nat rng" where
  "demo_rng = \<lparr>rng_seed = (\<lambda>n. n),
               rng_double = (\<lambda>s. (real (s mod 10) / 10, s + 1)),
               rng_below = (\<lambda>n s. (s mod n, s + 1))\<rparr>"

definition mk_row :: "string \<Rightarrow> string \<Rightarrow> real \<Rightarrow> real \<Rightarrow> string option \<Rightarrow> string \<Rightarrow> row" where
  "mk_row carrier month invoice_amount disputed_amount dtype settle =
     \<lparr>Carrier_Name = carrier, Invoice_Amount = invoice_amount,
      Disputed_Amount = disputed_amount,
      Reconciliation_Status = ''Pending'', Dispute_Type = dtype,
      Settlement_Status = settle, Invoice_Month = month\<rparr>"

text \<open>Two undisputed rows of different carriers and months.\<close>

definition two_rows :: dataframe where
  "two_rows =
     [mk_row ''Carrier 1'' ''2024-01'' 1000 0 None ''Settled'',
      mk_row ''Carrier 2'' ''2024-02'' 2000 0 None ''Settled'']"

text \<open>Three rows, two carriers, one month, one dispute.\<close>

definition three_rows :: dataframe where
  "three_rows =
     [mk_row ''Carrier 2'' ''2024-01'' 3000 300 (Some ''Rate Dispute'') ''Unsettled'',
      mk_row ''Carrier 1'' ''2024-01'' 1000 0 None ''Settled'',
      mk_row ''Carrier 2'' ''2024-01'' 2000 0 None ''Settled'']"

section \<open>The generator\<close>

lemma months_eq:
  "months = [''2024-01'', ''2024-02'', ''2024-03'', ''2024-04'', ''2024-05'', ''2024-06'',
             ''2024-07'', ''2024-08'', ''2024-09'', ''2024-10'', ''2024-11'', ''2024-12'']"
  by (simp add: months_def date_range_M_def strftime_Ym_def str_nat.simps upt_rec)

lemma carriers_eq:
  "carriers = [''Carrier 1'', ''Carrier 2'', ''Carrier 3'', ''Carrier 4'', ''Carrier 5'',
               ''Carrier 6'', ''Carrier 7'', ''Carrier 8'', ''Carrier 9'', ''Carrier 10'']"
  by (simp add: carriers_def str_nat.simps upt_rec)

lemma gen_row_month_carrier: "month_carrier (snd (fst (gen_row g m c s))) = (m, c)"
  by (simp add: gen_row_def month_carrier_def Let_def split: prod.splits)

lemma carrier_loop_keys:
  "map (month_carrier \<circ> snd) (fst (carrier_loop g m cs data s)) =
     map (month_carrier \<circ> snd) data @ map (Pair m) cs"
proof (induction cs arbitrary: data s)
  case Nil
  then show ?case by simp
next
  case (Cons c cs)
  obtain x s' where step: "gen_row g m c s = (x, s')"
    by (cases "gen_row g m c s")
  have "month_carrier (snd x) = (m, c)"
    using gen_row_month_carrier [of g m c s] step by simp
  then show ?case
    using Cons.IH [of "data @ [x]" s'] step by (simp add: o_def)
qed

lemma month_loop_keys:
  "map (month_carrier \<circ> snd) (fst (month_loop g ms cs data s)) =
     map (month_carrier \<circ> snd) data @ List.product ms cs"
proof (induction ms arbitrary: data s)
  case Nil
  then show ?case by simp
next
  case (Cons m ms)
  obtain data' s' where step: "carrier_loop g m cs data s = (data', s')"
    by (cases "carrier_loop g m cs data s")
  have "map (month_carrier \<circ> snd) data' = map (month_carrier \<circ> snd) data @ map (Pair m) cs"
    using carrier_loop_keys [of g m cs data s] step by simp
  then show ?case
    using Cons.IH [of data' s'] step by (simp add: o_def)
qed

lemma generate_from_keys:
  "map month_carrier (generate_from g s) = List.product months carriers"
  using month_loop_keys [of g months carriers "[]" s]
  by (simp add: generate_from_def generate_trace_def)

lemma distinct_months: "distinct months"
  by (simp add: months_eq)

lemma distinct_carriers: "distinct carriers"
  by (simp add: carriers_eq)

lemma length_generate_from: "length (generate_from g s) = 120"
proof -
  have "length (map month_carrier (generate_from g s)) = length months * length carriers"
    by (simp only: generate_from_keys length_product)
  then show ?thesis by (simp add: months_eq carriers_eq)
qed

text \<open>Claim C1. From every start state of the random stream (so for every seed, 42
  included) the generator returns 120 rows: the (month, carrier) pairs of the rows, read
  in row order, are exactly the product of the twelve months "2024-01" to "2024-12" with
  the ten carriers "Carrier 1" to "Carrier 10", month-major and carrier-minor, and no
  pair occurs twice.\<close>

theorem generate_shape:
  "map month_carrier (generate_from g s) = List.product months carriers
   \<and> length (generate_from g s) = 120
   \<and> distinct (map month_carrier (generate_from g s))
   \<and> months = [''2024-01'', ''2024-02'', ''2024-03'', ''2024-04'', ''2024-05'', ''2024-06'',
               ''2024-07'', ''2024-08'', ''2024-09'', ''2024-10'', ''2024-11'', ''2024-12'']
   \<and> carriers = [''Carrier 1'', ''Carrier 2'', ''Carrier 3'', ''Carrier 4'', ''Carrier 5'',
                 ''Carrier 6'', ''Carrier 7'', ''Carrier 8'', ''Carrier 9'', ''Carrier 10'']
   \<and> generate_sample_data g = generate_from g (rng_seed g 42)"
proof -
  have dist: "distinct (map month_carrier (generate_from g s))"
    by (simp only: generate_from_keys distinct_product distinct_months distinct_carriers)
  show ?thesis
    by (intro conjI generate_from_keys length_generate_from dist months_eq carriers_eq
        generate_sample_data_def)
qed

text \<open>Every entry of the trace is the result of one pass of the loop body.\<close>

lemma carrier_loop_entries:
  "x \<in> set (fst (carrier_loop g m cs data s)) \<Longrightarrow>
     x \<in> set data \<or> (\<exists>c s'. x = fst (gen_row g m c s'))"
proof (induction cs arbitrary: data s)
  case Nil
  then show ?case by simp
next
  case (Cons c cs)
  obtain y s' where step: "gen_row g m c s = (y, s')"
    by (cases "gen_row g m c s")
  have "x \<in> set (data @ [y]) \<or> (\<exists>c s'. x = fst (gen_row g m c s'))"
    using Cons.IH [of "data @ [y]" s'] Cons.prems step by simp
  moreover have "y = fst (gen_row g m c s)"
    using step by simp
  ultimately show ?case by auto
qed

lemma month_loop_entries:
  "x \<in> set (fst (month_loop g ms cs data s)) \<Longrightarrow>
     x \<in> set data \<or> (\<exists>m c s'. x = fst (gen_row g m c s'))"
proof (induction ms arbitrary: data s)
  case Nil
  then show ?case by simp
next
  case (Cons m ms)
  obtain data' s' where step: "carrier_loop g m cs data s = (data', s')"
    by (cases "carrier_loop g m cs data s")
  have "x \<in> set data' \<or> (\<exists>m c s'. x = fst (gen_row g m c s'))"
    using Cons.IH [of data' s'] Cons.prems step by simp
  moreover have "y \<in> set data' \<Longrightarrow> y \<in> set data \<or> (\<exists>c s'. y = fst (gen_row g m c s'))" for y
    using carrier_loop_entries [of y g m cs data s] step by simp
  ultimately show ?case by blast
qed

lemma generate_trace_entries:
  "x \<in> set (generate_trace g s) \<Longrightarrow> \<exists>m c s'. x = fst (gen_row g m c s')"
  using month_loop_entries [of x g months carriers "[]" s]
  by (simp add: generate_trace_def)

text \<open>The loops only append.\<close>

lemma carrier_loop_keeps: "set data \<subseteq> set (fst (carrier_loop g m cs data s))"
proof (induction cs arbitrary: data s)
  case Nil
  then show ?case by simp
next
  case (Cons c cs)
  obtain y s' where step: "gen_row g m c s = (y, s')"
    by (cases "gen_row g m c s")
  show ?case
    using Cons.IH [of "data @ [y]" s'] step by simp
qed

lemma month_loop_keeps: "set data \<subseteq> set (fst (month_loop g ms cs data s))"
proof (induction ms arbitrary: data s)
  case Nil
  then show ?case by simp
next
  case (Cons m ms)
  obtain data' s' where step: "carrier_loop g m cs data s = (data', s')"
    by (cases "carrier_loop g m cs data s")
  have "set data \<subseteq> set data'"
    using carrier_loop_keeps [of data g m cs s] step by simp
  then show ?case
    using Cons.IH [of data' s'] step by auto
qed

lemma generate_trace_first:
  "fst (gen_row g ''2024-01'' ''Carrier 1'' s) \<in> set (generate_trace g s)"
proof -
  obtain ms where ms: "months = ''2024-01'' # ms"
    by (simp add: months_eq)
  obtain cs where cs: "carriers = ''Carrier 1'' # cs"
    by (simp add: carriers_eq)
  obtain y s' where step: "gen_row g ''2024-01'' ''Carrier 1'' s = (y, s')"
    by (cases "gen_row g ''2024-01'' ''Carrier 1'' s")
  obtain data' s'' where inner: "carrier_loop g ''2024-01'' cs [y] s' = (data', s'')"
    by (cases "carrier_loop g ''2024-01'' cs [y] s'")
  have "y \<in> set data'"
    using carrier_loop_keeps [of "[y]" g "''2024-01''" cs s'] inner by simp
  then have "y \<in> set (fst (month_loop g ms carriers data' s''))"
    using month_loop_keeps [of data' g ms carriers s''] by auto
  then show ?thesis
    using step inner by (simp add: generate_trace_def ms cs [symmetric]) (simp add: cs)
qed

lemma gen_row_amounts:
  assumes "rng_ok g" and "gen_row g m c s = ((d, r), s')"
  shows "1000 \<le> Invoice_Amount r \<and> Invoice_Amount r < 5000
         \<and> (if d then 0 \<le> Disputed_Amount r \<and> Disputed_Amount r < 3 / 10 * Invoice_Amount r
             else Disputed_Amount r = 0)"
proof -
  obtain u1 s1 where d1: "rng_double g s = (u1, s1)"
    by (cases "rng_double g s")
  obtain u2 s2 where d2: "rng_double g s1 = (u2, s2)"
    by (cases "rng_double g s1")
  obtain u3 s3 where d3: "rng_double g s2 = (u3, s3)"
    by (cases "rng_double g s2")
  have u1: "0 \<le> u1" "u1 < 1"
    using assms(1) d1 by (auto simp: rng_ok_def unit_double_def dest: spec [of _ s])
  have u3: "0 \<le> u3" "u3 < 1"
    using assms(1) d3 by (auto simp: rng_ok_def unit_double_def dest: spec [of _ s2])
  have inv: "Invoice_Amount r = 1000 + 4000 * u1"
    using assms(2) d1 d2
    by (auto simp: gen_row_def uniform_def rand_def Let_def split: prod.splits if_splits)
  have pos: "0 < 1000 + 4000 * u1"
    using u1 by simp
  show ?thesis
  proof (cases d)
    case True
    have "Disputed_Amount r = (1000 + 4000 * u1) * (3 / 10) * u3"
      using assms(2) d1 d2 d3 True
      by (auto simp: gen_row_def uniform_def rand_def Let_def split: prod.splits if_splits)
    moreover have "0 \<le> (1000 + 4000 * u1) * (3 / 10) * u3"
      using pos u3 by simp
    moreover have "(1000 + 4000 * u1) * (3 / 10) * u3 < (1000 + 4000 * u1) * (3 / 10) * 1"
      using pos u3 by (intro mult_strict_left_mono) simp_all
    ultimately show ?thesis
      using True inv u1 by simp
  next
    case False
    have "Disputed_Amount r = 0"
      using assms(2) d1 d2 False
      by (auto simp: gen_row_def uniform_def rand_def Let_def split: prod.splits if_splits)
    then show ?thesis
      using False inv u1 by simp
  qed
qed

lemma gen_row_dispute_fields:
  assumes "gen_row g m c s = ((d, r), s')"
  shows "(Dispute_Type r = None) = (\<not> d) \<and> (d \<or> Settlement_Status r = ''Settled'')"
  using assms
  by (auto simp: gen_row_def Let_def split: prod.splits if_splits)

lemma demo_rng_ok: "rng_ok demo_rng"
  by (simp add: rng_ok_def unit_double_def demo_rng_def)

lemma demo_first_row_10:
  "fst (gen_row demo_rng ''2024-01'' ''Carrier 1'' 10) =
     (True, \<lparr>Carrier_Name = ''Carrier 1'', Invoice_Amount = 1000, Disputed_Amount = 60,
             Reconciliation_Status = ''Completed'', Dispute_Type = Some ''Rate Dispute'',
             Settlement_Status = ''Unsettled'', Invoice_Month = ''2024-01''\<rparr>)"
  by (simp add: gen_row_def uniform_def rand_def choice_def demo_rng_def
      numeral_2_eq_2 [symmetric] numeral_3_eq_3 [symmetric])

lemma demo_first_row_42:
  "fst (gen_row demo_rng ''2024-01'' ''Carrier 1'' 42) =
     (False, \<lparr>Carrier_Name = ''Carrier 1'', Invoice_Amount = 1800, Disputed_Amount = 0,
             Reconciliation_Status = ''In Progress'', Dispute_Type = None,
             Settlement_Status = ''Settled'', Invoice_Month = ''2024-01''\<rparr>)"
  by (simp add: gen_row_def uniform_def rand_def choice_def demo_rng_def
      numeral_2_eq_2 [symmetric] numeral_3_eq_3 [symmetric])


text \<open>Claim C3. For every generated row: the disputed amount is exactly 0 when the row
  is not disputed, and lies in \<open>[0, 0.3 \<times> invoice amount)\<close> when it is. The random
  stream is assumed to deliver doubles in \<open>[0, 1)\<close>; amounts are exact reals.\<close>

theorem disputed_amount_bounds:
  assumes "rng_ok g" and "(is_disputed, r) \<in> set (generate_trace g s)"
  shows "if is_disputed
         then 0 \<le> Disputed_Amount r \<and> Disputed_Amount r < 3 / 10 * Invoice_Amount r
         else Disputed_Amount r = 0"
proof -
  obtain m c s0 where "(is_disputed, r) = fst (gen_row g m c s0)"
    using generate_trace_entries [OF assms(2)] by blast
  then obtain s1 where "gen_row g m c s0 = ((is_disputed, r), s1)"
    by (cases "gen_row g m c s0") simp
  then show ?thesis
    using gen_row_amounts [OF assms(1)] by blast
qed

theorem disputed_amount_bounds_witness:
  "rng_ok demo_rng
   \<and> (True, \<lparr>Carrier_Name = ''Carrier 1'', Invoice_Amount = 1000, Disputed_Amount = 60,
             Reconciliation_Status = ''Completed'', Dispute_Type = Some ''Rate Dispute'',
             Settlement_Status = ''Unsettled'', Invoice_Month = ''2024-01''\<rparr>)
       \<in> set (generate_trace demo_rng 10)
   \<and> (0::real) \<le> 60 \<and> (60::real) < 3 / 10 * 1000
   \<and> (False, \<lparr>Carrier_Name = ''Carrier 1'', Invoice_Amount = 1800, Disputed_Amount = 0,
             Reconciliation_Status = ''In Progress'', Dispute_Type = None,
             Settlement_Status = ''Settled'', Invoice_Month = ''2024-01''\<rparr>)
       \<in> set (generate_trace demo_rng 42)"
proof -
  have m10: "(True, \<lparr>Carrier_Name = ''Carrier 1'', Invoice_Amount = 1000, Disputed_Amount = 60,
             Reconciliation_Status = ''Completed'', Dispute_Type = Some ''Rate Dispute'',
             Settlement_Status = ''Unsettled'', Invoice_Month = ''2024-01''\<rparr>)
       \<in> set (generate_trace demo_rng 10)"
    using generate_trace_first [of demo_rng 10] by (simp only: demo_first_row_10)
  have m42: "(False, \<lparr>Carrier_Name = ''Carrier 1'', Invoice_Amount = 1800, Disputed_Amount = 0,
             Reconciliation_Status = ''In Progress'', Dispute_Type = None,
             Settlement_Status = ''Settled'', Invoice_Month = ''2024-01''\<rparr>)
       \<in> set (generate_trace demo_rng 42)"
    using generate_trace_first [of demo_rng 42] by (simp only: demo_first_row_42)
  show ?thesis
    using disputed_amount_bounds [OF demo_rng_ok m10] disputed_amount_bounds [OF demo_rng_ok m42]
      demo_rng_ok m10 m42
    by simp
qed

text \<open>Claim C4. For every generated row, the dispute type is null if and only if the
  row is not disputed, and a row that is not disputed has settlement status
  "Settled".\<close>

theorem dispute_type_null_iff:
  assumes "(is_disputed, r) \<in> set (generate_trace g s)"
  shows "(Dispute_Type r = None) = (\<not> is_disputed)
         \<and> (\<not> is_disputed \<longrightarrow> Settlement_Status r = ''Settled'')"
proof -
  obtain m c s0 where "(is_disputed, r) = fst (gen_row g m c s0)"
    using generate_trace_entries [OF assms] by blast
  then obtain s1 where "gen_row g m c s0 = ((is_disputed, r), s1)"
    by (cases "gen_row g m c s0") simp
  then show ?thesis
    using gen_row_dispute_fields [of g m c s0 is_disputed r s1] by blast
qed

theorem dispute_type_null_iff_witness:
  "(False, \<lparr>Carrier_Name = ''Carrier 1'', Invoice_Amount = 1800, Disputed_Amount = 0,
            Reconciliation_Status = ''In Progress'', Dispute_Type = None,
            Settlement_Status = ''Settled'', Invoice_Month = ''2024-01''\<rparr>)
      \<in> set (generate_trace demo_rng 42)
   \<and> (True, \<lparr>Carrier_Name = ''Carrier 1'', Invoice_Amount = 1000, Disputed_Amount = 60,
             Reconciliation_Status = ''Completed'', Dispute_Type = Some ''Rate Dispute'',
             Settlement_Status = ''Unsettled'', Invoice_Month = ''2024-01''\<rparr>)
       \<in> set (generate_trace demo_rng 10)"
proof -
  have m42: "(False, \<lparr>Carrier_Name = ''Carrier 1'', Invoice_Amount = 1800, Disputed_Amount = 0,
             Reconciliation_Status = ''In Progress'', Dispute_Type = None,
             Settlement_Status = ''Settled'', Invoice_Month = ''2024-01''\<rparr>)
       \<in> set (generate_trace demo_rng 42)"
    using generate_trace_first [of demo_rng 42] by (simp only: demo_first_row_42)
  have m10: "(True, \<lparr>Carrier_Name = ''Carrier 1'', Invoice_Amount = 1000, Disputed_Amount = 60,
             Reconciliation_Status = ''Completed'', Dispute_Type = Some ''Rate Dispute'',
             Settlement_Status = ''Unsettled'', Invoice_Month = ''2024-01''\<rparr>)
       \<in> set (generate_trace demo_rng 10)"
    using generate_trace_first [of demo_rng 10] by (simp only: demo_first_row_10)
  show ?thesis
    using dispute_type_null_iff [OF m42] dispute_type_null_iff [OF m10] m42 m10
    by simp
qed

section \<open>Filters and the page\<close>

lemma set_unique: "set (unique xs) = set xs"
  by (induction xs rule: unique.induct) auto



lemma apply_filters_eq:
  "apply_filters df c m =
     filter (\<lambda>r. (c = ''All'' \<or> Carrier_Name r = c) \<and> (m = ''All'' \<or> Invoice_Month r = m)) df"
  by (simp add: apply_filters_def Let_def)

lemma apply_filters_All: "apply_filters df ''All'' ''All'' = df"
  by (simp add: apply_filters_def Let_def)

text \<open>Claim C2. For every frame and every pair of selectors, the filtered frame holds
  exactly the rows for which every selector other than "All" equals the row's field
  (string equality, so case-sensitive and with no partial match), both conditions
  together; it is a subsequence of the input, so the relative order is kept; with both
  selectors "All" the frame is returned unchanged, which for the generated frame is all
  120 rows.\<close>

theorem apply_filters_spec:
  "apply_filters df c m =
     filter (\<lambda>r. (c = ''All'' \<or> Carrier_Name r = c) \<and> (m = ''All'' \<or> Invoice_Month r = m)) df
   \<and> (r \<in> set (apply_filters df c m)) =
       (r \<in> set df \<and> (c = ''All'' \<or> Carrier_Name r = c) \<and> (m = ''All'' \<or> Invoice_Month r = m))
   \<and> subseq (apply_filters df c m) df
   \<and> apply_filters df ''All'' ''All'' = df
   \<and> apply_filters (generate_from g s) ''All'' ''All'' = generate_from g s
   \<and> length (apply_filters (generate_from g s) ''All'' ''All'') = 120"
proof -
  have mem: "(r \<in> set (apply_filters df c m)) =
       (r \<in> set df \<and> (c = ''All'' \<or> Carrier_Name r = c) \<and> (m = ''All'' \<or> Invoice_Month r = m))"
    by (simp add: apply_filters_eq)
  have sub: "subseq (apply_filters df c m) df"
    by (simp add: apply_filters_eq)
  have len: "length (apply_filters (generate_from g s) ''All'' ''All'') = 120"
    by (simp only: apply_filters_All length_generate_from)
  show ?thesis
    by (intro conjI apply_filters_eq mem sub apply_filters_All len)
qed

lemma dashboard_empty:
  "apply_filters df c m = [] \<Longrightarrow>
     dashboard df c m =
       No_Data ''No data available for the selected filters. Please adjust your filters and try again.''"
  by (simp add: dashboard_def Let_def)

lemma groupby_Nil: "groupby key [] = []"
  by (simp add: groupby_def)

text \<open>Claim C5. When the filtered frame is empty the page is the no-data warning alone:
  no tab and no chart table is computed. Each of the eight chart tables of an empty frame
  is the empty table, and a guarded chart section of an empty frame writes its no-data
  message. (The model's functions are total: none of them can raise.)\<close>

theorem empty_filtered_set:
  "(apply_filters df c m = [] \<longrightarrow>
      dashboard df c m =
        No_Data ''No data available for the selected filters. Please adjust your filters and try again.'')
   \<and> processed_vs_disputed [] = []
   \<and> monthly_disputes [] = []
   \<and> pending_reconciliation_summary [] = []
   \<and> reconciliation_trend [] = []
   \<and> dispute_type [] = []
   \<and> dispute_status [] = []
   \<and> settlement_status [] = []
   \<and> settled_vs_outstanding [] = []
   \<and> guarded [] table = Write ''No data to display for the selected filter.''"
  by (simp add: dashboard_empty guarded_def processed_vs_disputed_def monthly_disputes_def
      pending_reconciliation_summary_def groupby_carrier_sum_def reconciliation_trend_def
      dispute_type_def dispute_status_def settlement_status_def settled_vs_outstanding_def
      groupby_Nil agg_sum_both_def agg_sum_def agg_size_def)

lemma two_rows_disjoint: "apply_filters two_rows ''Carrier 1'' ''2024-02'' = []"
  by (simp add: apply_filters_def two_rows_def mk_row_def)

theorem empty_filtered_set_witness:
  "apply_filters two_rows ''Carrier 1'' ''2024-02'' = []
   \<and> dashboard two_rows ''Carrier 1'' ''2024-02'' =
       No_Data ''No data available for the selected filters. Please adjust your filters and try again.''"
  using empty_filtered_set [of two_rows "''Carrier 1''" "''2024-02''" "()"] two_rows_disjoint
  by simp

text \<open>The values of the carrier and month columns of the generated frame.\<close>

lemma generate_from_carriers: "set (map Carrier_Name (generate_from g s)) = set carriers"
proof -
  have "map Carrier_Name (generate_from g s) = map snd (map month_carrier (generate_from g s))"
    by (simp add: month_carrier_def o_def)
  then have "set (map Carrier_Name (generate_from g s)) = snd ` set (List.product months carriers)"
    by (simp only: generate_from_keys set_map)
  also have "\<dots> = set carriers"
    by (force simp: months_eq)
  finally show ?thesis .
qed

lemma absent_selector:
  assumes "c \<notin> set (carrier_options df) \<or> m \<notin> set (month_options df)"
  shows "apply_filters df c m = []"
proof -
  have "\<not> ((c = ''All'' \<or> Carrier_Name r = c) \<and> (m = ''All'' \<or> Invoice_Month r = m))"
    if "r \<in> set df" for r
    using assms that by (auto simp: carrier_options_def month_options_def set_unique)
  then show ?thesis
    by (simp add: apply_filters_eq)
qed

text \<open>Claim C6 as stated fails: the filter has no check of the selector against the
  frame's values. On the generated frame the selector "Carrier 11", which is not among
  the options, is not rejected: the filter returns the empty frame and the page is the
  no-data warning.\<close>

theorem invalid_selector_counterexample:
  "''Carrier 11'' \<notin> set (carrier_options (generate_sample_data demo_rng))
   \<and> apply_filters (generate_sample_data demo_rng) ''Carrier 11'' ''All'' = []
   \<and> dashboard (generate_sample_data demo_rng) ''Carrier 11'' ''All'' =
       No_Data ''No data available for the selected filters. Please adjust your filters and try again.''"
proof -
  have out: "''Carrier 11'' \<notin> set (carrier_options (generate_sample_data demo_rng))"
    using generate_from_carriers [of demo_rng "rng_seed demo_rng 42"]
    by (simp add: carrier_options_def set_unique generate_sample_data_def carriers_eq)
  then have "apply_filters (generate_sample_data demo_rng) ''Carrier 11'' ''All'' = []"
    by (simp add: absent_selector)
  then show ?thesis
    using out by (simp add: dashboard_empty)
qed

text \<open>Claim C6, amended. A selector that is not among the options of its select box
  ("All" and the distinct values of the column) raises no error: the filtered frame is
  empty and the page is the no-data warning. The frame itself is an argument and is not
  changed.\<close>

theorem absent_selector_no_data:
  assumes "carrier_filter \<notin> set (carrier_options df) \<or> month_filter \<notin> set (month_options df)"
  shows "apply_filters df carrier_filter month_filter = []
         \<and> dashboard df carrier_filter month_filter =
             No_Data ''No data available for the selected filters. Please adjust your filters and try again.''"
  using absent_selector [OF assms] by (simp add: dashboard_empty)

theorem absent_selector_no_data_witness:
  "''2025-01'' \<notin> set (month_options three_rows)
   \<and> apply_filters three_rows ''All'' ''2025-01'' = []
   \<and> dashboard three_rows ''All'' ''2025-01'' =
       No_Data ''No data available for the selected filters. Please adjust your filters and try again.''"
proof -
  have out: "''2025-01'' \<notin> set (month_options three_rows)"
    by (simp add: month_options_def three_rows_def mk_row_def)
  then have "''All'' \<notin> set (carrier_options three_rows) \<or> ''2025-01'' \<notin> set (month_options three_rows)"
    by simp
  from absent_selector_no_data [OF this] out show ?thesis
    by simp
qed











section \<open>Grouped tables\<close>

lemma groupby_keys: "map fst (groupby key df) = sort (remdups (List.map_filter key df))"
  by (simp add: groupby_def o_def)

lemma set_map_filter_key: "set (List.map_filter key df) = {k. \<exists>r\<in>set df. key r = Some k}"
  by (induction df) (auto simp: map_filter_simps split: option.splits)

lemma groupby_key_set: "set (map fst (groupby key df)) = {k. \<exists>r\<in>set df. key r = Some k}"
  by (simp only: groupby_keys set_sort set_remdups set_map_filter_key)

lemma groupby_distinct: "distinct (map fst (groupby key df))"
  by (simp only: groupby_keys distinct_sort distinct_remdups)

lemma groupby_sorted: "sorted (map fst (groupby key df))"
  by (simp only: groupby_keys sorted_sort)

lemma groupby_all_null: "\<forall>r\<in>set df. key r = None \<Longrightarrow> groupby key df = []"
proof -
  assume "\<forall>r\<in>set df. key r = None"
  then have "set (List.map_filter key df) = {}"
    by (simp add: set_map_filter_key)
  then show ?thesis
    by (simp add: groupby_def)
qed

text \<open>Summing a column group by group, over a finite set of keys, is summing it over the
  rows whose key is in the set.\<close>

lemma sum_over_groups:
  fixes f :: "'r \<Rightarrow> 'a::comm_monoid_add"
  assumes "finite K"
  shows "(\<Sum>k\<in>K. sum_list (map f (filter (\<lambda>r. key r = Some k) xs))) =
           sum_list (map f (filter (\<lambda>r. \<exists>k\<in>K. key r = Some k) xs))"
proof (induction xs)
  case Nil
  then show ?case by simp
next
  case (Cons x xs)
  have split: "sum_list (map f (filter (\<lambda>r. key r = Some k) (x # xs))) =
                 (if key x = Some k then f x else 0)
                   + sum_list (map f (filter (\<lambda>r. key r = Some k) xs))" for k
    by simp
  have "(\<Sum>k\<in>K. sum_list (map f (filter (\<lambda>r. key r = Some k) (x # xs)))) =
          (\<Sum>k\<in>K. if key x = Some k then f x else 0)
            + (\<Sum>k\<in>K. sum_list (map f (filter (\<lambda>r. key r = Some k) xs)))"
    by (simp only: split sum.distrib)
  moreover have "(\<Sum>k\<in>K. if key x = Some k then f x else 0) =
          (if \<exists>k\<in>K. key x = Some k then f x else 0)"
  proof (cases "key x")
    case None
    then show ?thesis by simp
  next
    case (Some k0)
    have "(\<Sum>k\<in>K. if k0 = k then f x else 0) = (if k0 \<in> K then f x else 0)"
      using assms by (simp only: sum.delta')
    then show ?thesis
      using Some by simp
  qed
  ultimately show ?case
    using Cons.IH by simp
qed

lemma length_as_sum: "sum_list (map (\<lambda>_. 1::nat) xs) = length xs"
  by (induction xs) simp_all

lemma settlement_status_rows_eq:
  "settlement_status df =
     map (\<lambda>k. (k, length (filter (\<lambda>r. (Carrier_Name r, Settlement_Status r) = k) df)))
       (sort (remdups (map (\<lambda>r. (Carrier_Name r, Settlement_Status r)) df)))"
proof -
  have "List.map_filter (\<lambda>r. Some (Carrier_Name r, Settlement_Status r)) df =
          map (\<lambda>r. (Carrier_Name r, Settlement_Status r)) df"
    by (induction df) (simp_all add: map_filter_simps)
  then show ?thesis
    by (simp add: settlement_status_def agg_size_def groupby_def o_def)
qed

lemma settlement_status_per_status:
  "sum_list (map snd (filter (\<lambda>(k, n). snd k = st) (settlement_status df))) =
     length (filter (\<lambda>r. Settlement_Status r = st) df)"
proof -
  let ?pair = "\<lambda>r. (Carrier_Name r, Settlement_Status r)"
  let ?ks = "sort (remdups (map ?pair df))"
  let ?K = "{k \<in> set ?ks. snd k = st}"
  have d: "distinct (filter (\<lambda>k. snd k = st) ?ks)"
    by simp
  have "sum_list (map snd (filter (\<lambda>(k, n). snd k = st) (settlement_status df))) =
          sum_list (map (\<lambda>k. length (filter (\<lambda>r. ?pair r = k) df)) (filter (\<lambda>k. snd k = st) ?ks))"
    by (simp add: settlement_status_rows_eq filter_map o_def)
  also have "\<dots> = (\<Sum>k\<in>set (filter (\<lambda>k. snd k = st) ?ks). length (filter (\<lambda>r. ?pair r = k) df))"
    using d by (rule sum_list_distinct_conv_sum_set)
  also have "\<dots> = (\<Sum>k\<in>?K. sum_list (map (\<lambda>_. 1::nat) (filter (\<lambda>r. Some (?pair r) = Some k) df)))"
    by (simp only: length_as_sum set_filter option.inject)
  also have "\<dots> = sum_list (map (\<lambda>_. 1::nat) (filter (\<lambda>r. \<exists>k\<in>?K. Some (?pair r) = Some k) df))"
    by (rule sum_over_groups) simp
  also have "\<dots> = length (filter (\<lambda>r. \<exists>k\<in>?K. Some (?pair r) = Some k) df)"
    by (rule length_as_sum)
  also have "filter (\<lambda>r. \<exists>k\<in>?K. Some (?pair r) = Some k) df =
               filter (\<lambda>r. Settlement_Status r = st) df"
    by (rule filter_cong) auto
  finally show ?thesis .
qed

text \<open>Claim C9 as stated fails: the table is grouped by carrier and settlement status,
  not by settlement status alone. Two settled rows of two carriers give two rows of count
  1, where one row of count 2 is claimed.\<close>

theorem settlement_status_counterexample:
  "settlement_status two_rows =
     [((''Carrier 1'', ''Settled''), 1), ((''Carrier 2'', ''Settled''), 1)]
   \<and> unique (map Settlement_Status two_rows) = [''Settled'']
   \<and> length (filter (\<lambda>r. Settlement_Status r = ''Settled'') two_rows) = 2
   \<and> length (settlement_status two_rows) \<noteq> length (unique (map Settlement_Status two_rows))"
  by (simp add: settlement_status_rows_eq two_rows_def mk_row_def)

text \<open>Claim C9, amended. The settlement status table has one row per distinct pair of
  carrier and settlement status present in the frame, in ascending order of the pair;
  the count of a row is the number of rows of the frame with that carrier and that
  status; and for each settlement status the counts of its rows add up to the number of
  rows of the frame with that status.\<close>

theorem settlement_status_by_carrier:
  "distinct (map fst (settlement_status df))
   \<and> sorted (map fst (settlement_status df))
   \<and> set (map fst (settlement_status df)) = (\<lambda>r. (Carrier_Name r, Settlement_Status r)) ` set df
   \<and> (\<forall>k n. (k, n) \<in> set (settlement_status df) \<longrightarrow>
         n = length (filter (\<lambda>r. (Carrier_Name r, Settlement_Status r) = k) df))
   \<and> (\<forall>st. sum_list (map snd (filter (\<lambda>(k, n). snd k = st) (settlement_status df))) =
         length (filter (\<lambda>r. Settlement_Status r = st) df))"
proof -
  have keys: "map fst (settlement_status df) =
                sort (remdups (map (\<lambda>r. (Carrier_Name r, Settlement_Status r)) df))"
    by (simp add: settlement_status_rows_eq o_def)
  have a: "distinct (map fst (settlement_status df))"
    by (simp only: keys distinct_sort distinct_remdups)
  have b: "sorted (map fst (settlement_status df))"
    by (simp only: keys sorted_sort)
  have c: "set (map fst (settlement_status df)) =
             (\<lambda>r. (Carrier_Name r, Settlement_Status r)) ` set df"
    by (simp only: keys set_sort set_remdups set_map)
  have d: "\<forall>k n. (k, n) \<in> set (settlement_status df) \<longrightarrow>
         n = length (filter (\<lambda>r. (Carrier_Name r, Settlement_Status r) = k) df)"
    by (auto simp: settlement_status_rows_eq)
  show ?thesis
    using a b c d settlement_status_per_status by blast
qed

theorem settlement_status_by_carrier_witness:
  "settlement_status three_rows =
     [((''Carrier 1'', ''Settled''), 1), ((''Carrier 2'', ''Settled''), 1),
      ((''Carrier 2'', ''Unsettled''), 1)]
   \<and> length (filter (\<lambda>r. (Carrier_Name r, Settlement_Status r) = (''Carrier 2'', ''Settled''))
        three_rows) = 1
   \<and> sum_list (map snd (filter (\<lambda>(k, n). snd k = ''Settled'') (settlement_status three_rows))) = 2
   \<and> length (filter (\<lambda>r. Settlement_Status r = ''Settled'') three_rows) = 2"
proof -
  have rows: "settlement_status three_rows =
     [((''Carrier 1'', ''Settled''), 1), ((''Carrier 2'', ''Settled''), 1),
      ((''Carrier 2'', ''Unsettled''), 1)]"
    by (simp add: settlement_status_rows_eq three_rows_def mk_row_def)
  have mem: "((''Carrier 2'', ''Settled''), 1) \<in> set (settlement_status three_rows)"
    by (simp add: rows)
  have two: "length (filter (\<lambda>r. Settlement_Status r = ''Settled'') three_rows) = 2"
    by (simp add: three_rows_def mk_row_def)
  show ?thesis
    using settlement_status_by_carrier [of three_rows] mem rows two
    by (simp add: three_rows_def mk_row_def)
qed

text \<open>Claim C10. For every non-empty frame in which no row is disputed (every dispute
  type is null, which by C4 is what an undisputed generated row has), the dispute type
  by carrier table is empty: the grouping drops every row, and the chart section plots
  the empty table.\<close>

theorem dispute_type_all_null:
  assumes "df \<noteq> []" and "\<forall>r\<in>set df. Dispute_Type r = None"
  shows "dispute_type df = [] \<and> dispute_type_fig (render_tabs df) = Chart []"
proof -
  have "\<forall>r\<in>set df. map_option (Pair (Carrier_Name r)) (Dispute_Type r) = None"
    using assms(2) by simp
  then have "groupby (\<lambda>r. map_option (Pair (Carrier_Name r)) (Dispute_Type r)) df = []"
    by (rule groupby_all_null)
  then have "dispute_type df = []"
    by (simp add: dispute_type_def agg_sum_def)
  then show ?thesis
    using assms(1) by (simp add: render_tabs_def guarded_def)
qed

theorem dispute_type_all_null_witness:
  "two_rows \<noteq> []
   \<and> map Dispute_Type two_rows = [None, None]
   \<and> dispute_type two_rows = []
   \<and> dispute_type_fig (render_tabs two_rows) = Chart []"
proof -
  have ne: "two_rows \<noteq> []"
    by (simp add: two_rows_def)
  have nulls: "\<forall>r\<in>set two_rows. Dispute_Type r = None"
    by (simp add: two_rows_def mk_row_def)
  show ?thesis
    using dispute_type_all_null [OF ne nulls] ne
    by (simp add: two_rows_def mk_row_def)
qed


end
